theory Spec2Isabelle
  imports Main "HOL-Library.Multiset" "HOL-Library.Product_Lexorder"
begin

section \<open>Issue ranker of tools/select_top10.py\<close>

text \<open>
  The script reads a YAML document, ranks the records under its key \<open>issues\<close> by
  priority, impact and estimate, and writes the first ten to a second document.
  The development embeds the script function by function and proves the properties its
  specification states.

  Scope of the model.
  \<^item> Parsed documents are the values PyYAML's \<open>safe_load\<close> builds from null, booleans,
    integers, strings, sequences and mappings. Floats, timestamps, binary values and
    sets are left out.
  \<^item> A Python \<open>str\<close> is a \<open>string\<close> of ASCII characters; \<open>upper\<close> and \<open>lower\<close> map the
    26 letters and leave every other character alone. Case mappings of characters
    beyond ASCII are not modelled.
  \<^item> The YAML library is not part of the repository: \<open>safe_load\<close> and \<open>safe_dump\<close> are
    parameters (\<open>load\<close>, \<open>dump\<close>) of the functions that touch files.
  \<^item> The file system is a map from paths to file contents; a path exists when it is a
    key of that map, reading an existing file and writing any file succeed.
\<close>

subsection \<open>Values and exceptions\<close>

text \<open>
  A mapping is an association list in insertion order; a lookup takes the first pair
  with the key.
\<close>

datatype yaml =
    YNull
  | YBool bool
  | YInt int
  | YStr string
  | YList "yaml list"
  | YMap "(yaml \<times> yaml) list"

datatype exn =
    SystemExit string
  | AttributeError
  | TypeError
  | IndexError
  | KeyError
  | FileNotFoundError
  | YAMLError

subsection \<open>Python primitives the script uses\<close>

definition upper_char :: "char \<Rightarrow> char" where
  "upper_char c =
     (case map_of (zip ''abcdefghijklmnopqrstuvwxyz'' ''ABCDEFGHIJKLMNOPQRSTUVWXYZ'') c of
        Some u \<Rightarrow> u
      | None \<Rightarrow> c)"

definition lower_char :: "char \<Rightarrow> char" where
  "lower_char c =
     (case map_of (zip ''ABCDEFGHIJKLMNOPQRSTUVWXYZ'' ''abcdefghijklmnopqrstuvwxyz'') c of
        Some l \<Rightarrow> l
      | None \<Rightarrow> c)"

definition upper :: "string \<Rightarrow> string" where
  "upper s = map upper_char s"

definition lower :: "string \<Rightarrow> string" where
  "lower s = map lower_char s"

definition startswith :: "string \<Rightarrow> string \<Rightarrow> bool" where
  "startswith s p = (take (length p) s = p)"

text \<open>\<open>s.split(c, 1)\<close>: at most one split, at the first occurrence of \<open>c\<close>.\<close>

definition split_once :: "char \<Rightarrow> string \<Rightarrow> string list" where
  "split_once c s =
     (if c \<in> set s
      then [takeWhile (\<lambda>x. x \<noteq> c) s, tl (dropWhile (\<lambda>x. x \<noteq> c) s)]
      else [s])"

text \<open>\<open>xs[i]\<close> for an index that is not negative.\<close>

definition subscript :: "'a list \<Rightarrow> nat \<Rightarrow> exn + 'a" where
  "subscript xs i = (if i < length xs then Inr (xs ! i) else Inl IndexError)"

text \<open>\<open>d[k]\<close> and \<open>d.get(k, default)\<close> on the three score tables.\<close>

definition table_index :: "(string \<times> int) list \<Rightarrow> string \<Rightarrow> exn + int" where
  "table_index d k = (case map_of d k of None \<Rightarrow> Inl KeyError | Some v \<Rightarrow> Inr v)"

definition table_get :: "(string \<times> int) list \<Rightarrow> string \<Rightarrow> int \<Rightarrow> int" where
  "table_get d k dflt = (case map_of d k of None \<Rightarrow> dflt | Some v \<Rightarrow> v)"

text \<open>
  \<open>issue.get(key)\<close>: only a mapping has the method; on any other value the attribute
  lookup raises.
\<close>

fun dict_get :: "yaml \<Rightarrow> string \<Rightarrow> exn + yaml option" where
  "dict_get (YMap kvs) key = Inr (map_of kvs (YStr key))"
| "dict_get _ key = Inl AttributeError"

fun truthy :: "yaml \<Rightarrow> bool" where
  "truthy YNull = False"
| "truthy (YBool b) = b"
| "truthy (YInt n) = (n \<noteq> 0)"
| "truthy (YStr s) = (s \<noteq> [])"
| "truthy (YList xs) = (xs \<noteq> [])"
| "truthy (YMap kvs) = (kvs \<noteq> [])"

text \<open>
  What a \<open>for\<close> loop iterates over: the elements of a list, the characters of a string,
  the keys of a mapping; the other values are not iterable.
\<close>

fun py_iter :: "yaml \<Rightarrow> exn + yaml list" where
  "py_iter (YList xs) = Inr xs"
| "py_iter (YStr s) = Inr (map (\<lambda>c. YStr [c]) s)"
| "py_iter (YMap kvs) = Inr (map fst kvs)"
| "py_iter _ = Inl TypeError"

subsection \<open>Constants (lines 15 to 21)\<close>

definition DEFAULT_PRIORITY :: string where
  "DEFAULT_PRIORITY = ''P3''"

definition DEFAULT_IMPACT :: string where
  "DEFAULT_IMPACT = ''Low''"

definition DEFAULT_ESTIMATE :: string where
  "DEFAULT_ESTIMATE = ''M''"

definition PRIORITY_ORDER :: "(string \<times> int) list" where
  "PRIORITY_ORDER = [(''P1'', 3), (''P2'', 2), (''P3'', 1)]"

definition IMPACT_ORDER :: "(string \<times> int) list" where
  "IMPACT_ORDER = [(''HIGH'', 3), (''MEDIUM'', 2), (''LOW'', 1)]"

definition ESTIMATE_ORDER :: "(string \<times> int) list" where
  "ESTIMATE_ORDER = [(''XS'', 1), (''S'', 2), (''M'', 3), (''L'', 4), (''XL'', 5)]"

subsection \<open>Normalisation (lines 24 to 56)\<close>

text \<open>
  \<open>labels_iter\<close> is the iterable of the loop header
  \<open>for label in issue.get("labels", []) or []\<close>.
\<close>

definition labels_iter :: "yaml \<Rightarrow> exn + yaml list" where
  "labels_iter issue =
     (case dict_get issue ''labels'' of
        Inl e \<Rightarrow> Inl e
      | Inr found \<Rightarrow>
          (let v = (case found of None \<Rightarrow> YList [] | Some x \<Rightarrow> x)
           in py_iter (if truthy v then v else YList [])))"

text \<open>
  The loop body of lines 29 to 35 and of lines 43 to 48, which differ in the prefix
  only. \<open>Inr None\<close>: the loop ran to its end without a \<open>return\<close>.
\<close>

fun scan_labels :: "string \<Rightarrow> yaml list \<Rightarrow> exn + string option" where
  "scan_labels pre [] = Inr None"
| "scan_labels pre (YStr label # rest) =
     (if startswith (lower label) pre
      then (case subscript (split_once CHR '':'' label) 1 of
              Inl e \<Rightarrow> Inl e
            | Inr v \<Rightarrow> Inr (Some (upper v)))
      else scan_labels pre rest)"
| "scan_labels pre (_ # rest) = scan_labels pre rest"

definition normalise_priority :: "yaml \<Rightarrow> exn + string" where
  "normalise_priority issue =
     (case dict_get issue ''priority'' of
        Inl e \<Rightarrow> Inl e
      | Inr (Some (YStr priority)) \<Rightarrow> Inr (upper priority)
      | Inr _ \<Rightarrow>
          (case labels_iter issue of
             Inl e \<Rightarrow> Inl e
           | Inr labels \<Rightarrow>
               (case scan_labels ''priority:'' labels of
                  Inl e \<Rightarrow> Inl e
                | Inr (Some v) \<Rightarrow> Inr v
                | Inr None \<Rightarrow> Inr DEFAULT_PRIORITY)))"

definition normalise_impact :: "yaml \<Rightarrow> exn + string" where
  "normalise_impact issue =
     (case dict_get issue ''impact'' of
        Inl e \<Rightarrow> Inl e
      | Inr (Some (YStr impact)) \<Rightarrow> Inr (upper impact)
      | Inr _ \<Rightarrow>
          (case labels_iter issue of
             Inl e \<Rightarrow> Inl e
           | Inr labels \<Rightarrow>
               (case scan_labels ''impact:'' labels of
                  Inl e \<Rightarrow> Inl e
                | Inr (Some v) \<Rightarrow> Inr v
                | Inr None \<Rightarrow> Inr (upper DEFAULT_IMPACT))))"

definition normalise_estimate :: "yaml \<Rightarrow> exn + string" where
  "normalise_estimate issue =
     (case dict_get issue ''estimate'' of
        Inl e \<Rightarrow> Inl e
      | Inr (Some (YStr estimate)) \<Rightarrow> Inr (upper estimate)
      | Inr _ \<Rightarrow> Inr DEFAULT_ESTIMATE)"

subsection \<open>The sort key (lines 59 to 68)\<close>

type_synonym sortkey = "int \<times> int \<times> int \<times> nat"

definition sort_key_issue :: "yaml \<Rightarrow> nat \<Rightarrow> exn + sortkey" where
  "sort_key_issue issue index =
     (case normalise_priority issue of
        Inl e \<Rightarrow> Inl e
      | Inr priority \<Rightarrow>
     (case normalise_impact issue of
        Inl e \<Rightarrow> Inl e
      | Inr impact \<Rightarrow>
     (case normalise_estimate issue of
        Inl e \<Rightarrow> Inl e
      | Inr estimate \<Rightarrow>
     (case table_index PRIORITY_ORDER DEFAULT_PRIORITY of
        Inl e \<Rightarrow> Inl e
      | Inr priority_default \<Rightarrow>
     (case table_index IMPACT_ORDER (upper DEFAULT_IMPACT) of
        Inl e \<Rightarrow> Inl e
      | Inr impact_default \<Rightarrow>
     (case table_index ESTIMATE_ORDER DEFAULT_ESTIMATE of
        Inl e \<Rightarrow> Inl e
      | Inr estimate_default \<Rightarrow>
          (let priority_score = table_get PRIORITY_ORDER priority priority_default;
               impact_score = table_get IMPACT_ORDER impact impact_default;
               estimate_score = table_get ESTIMATE_ORDER estimate estimate_default
           in Inr (- priority_score, - impact_score, estimate_score, index))))))))"

subsection \<open>Ranking and truncation (lines 71 to 89)\<close>

text \<open>
  \<open>sorted(enumerated, key=...)\<close> calls the key function on every item in list order, so
  the first record whose key raises decides the exception; it then sorts the items by
  their keys, which are compared as tuples, that is lexicographically. \<open>keyed\<close> is the
  first half, \<open>sort_key fst\<close> of the library (a stable sort, as Python's) the second.
\<close>

fun keyed :: "(nat \<times> yaml) list \<Rightarrow> exn + (sortkey \<times> nat \<times> yaml) list" where
  "keyed [] = Inr []"
| "keyed (item # rest) =
     (case sort_key_issue (snd item) (fst item) of
        Inl e \<Rightarrow> Inl e
      | Inr k \<Rightarrow>
          (case keyed rest of
             Inl e \<Rightarrow> Inl e
           | Inr ks \<Rightarrow> Inr ((k, item) # ks)))"

text \<open>Lines 80 to 83: the value of \<open>sorted_issues\<close>.\<close>

definition sorted_issues :: "yaml list \<Rightarrow> exn + yaml list" where
  "sorted_issues issues =
     (case keyed (enumerate 0 issues) of
        Inl e \<Rightarrow> Inl e
      | Inr ks \<Rightarrow> Inr (map (\<lambda>(k, item). snd item) (sort_key fst ks)))"

text \<open>\<open>xs[:limit]\<close>: a negative limit counts from the end, and never below the start.\<close>

definition slice_to :: "'a list \<Rightarrow> int \<Rightarrow> 'a list" where
  "slice_to xs limit =
     (if 0 \<le> limit then take (nat limit) xs
      else take (nat (int (length xs) + limit)) xs)"

text \<open>Lines 73 to 86: the value of \<open>result\<close>, from the parsed document \<open>data\<close>.\<close>

definition select_result :: "yaml \<Rightarrow> int \<Rightarrow> exn + yaml" where
  "select_result data limit =
     (case data of
        YMap kvs \<Rightarrow>
          (case map_of kvs (YStr ''issues'') of
             None \<Rightarrow> Inl (SystemExit ''Input YAML must contain a top-level 'issues' sequence'')
           | Some (YList issues) \<Rightarrow>
               (case sorted_issues issues of
                  Inl e \<Rightarrow> Inl e
                | Inr sorted_is \<Rightarrow>
                    Inr (YMap [(YStr ''issues'', YList (slice_to sorted_is limit))]))
           | Some _ \<Rightarrow> Inl (SystemExit '''issues' must be a list''))
      | _ \<Rightarrow> Inl (SystemExit ''Input YAML must contain a top-level 'issues' sequence''))"

subsection \<open>Files, the command line and the exit status\<close>

text \<open>
  \<open>mkdirs\<close> lists the paths whose parent directory line 104 has created, \<open>out\<close> and
  \<open>err\<close> the lines printed to the two streams. A path is the string given on the
  command line; what \<open>Path\<close> does to its spelling is not modelled.
\<close>

record world =
  files :: "string \<rightharpoonup> string"
  mkdirs :: "string list"
  out :: "string list"
  err :: "string list"

definition select_top_issues ::
  "(string \<Rightarrow> exn + yaml) \<Rightarrow> (yaml \<Rightarrow> string) \<Rightarrow> string \<Rightarrow> string \<Rightarrow> int \<Rightarrow> world
     \<Rightarrow> (exn + unit) \<times> world" where
  "select_top_issues load dump source target limit w =
     (case files w source of
        None \<Rightarrow> (Inl FileNotFoundError, w)
      | Some content \<Rightarrow>
          (case load content of
             Inl e \<Rightarrow> (Inl e, w)
           | Inr data \<Rightarrow>
               (case select_result data limit of
                  Inl e \<Rightarrow> (Inl e, w)
                | Inr result \<Rightarrow> (Inr (), w\<lparr>files := (files w)(target \<mapsto> dump result)\<rparr>))))"

definition usage :: string where
  "usage = ''Usage: python tools/select_top10.py <input_yaml> <output_yaml>''"

definition main ::
  "(string \<Rightarrow> exn + yaml) \<Rightarrow> (yaml \<Rightarrow> string) \<Rightarrow> string list \<Rightarrow> world
     \<Rightarrow> (exn + int) \<times> world" where
  "main load dump argv w =
     (if length argv \<noteq> 3 then (Inr 1, w\<lparr>err := err w @ [usage]\<rparr>)
      else
        (let source = argv ! 1; target = argv ! 2
         in if files w source = None
            then (Inr 1, w\<lparr>err := err w @ [''Input file not found: '' @ source]\<rparr>)
            else
              (case select_top_issues load dump source target 10
                      (w\<lparr>mkdirs := mkdirs w @ [target]\<rparr>) of
                 (Inl e, w') \<Rightarrow> (Inl e, w')
               | (Inr u, w') \<Rightarrow>
                   (Inr 0, w'\<lparr>out := out w' @ [''Top issues written to '' @ target]\<rparr>))))"

text \<open>
  Line 112, \<open>raise SystemExit(main(sys.argv))\<close>: the exit status of the process. An
  exit raised with a message prints the message on the error stream and ends with
  status 1, as does any other exception that nothing catches (with its traceback).
\<close>

definition script ::
  "(string \<Rightarrow> exn + yaml) \<Rightarrow> (yaml \<Rightarrow> string) \<Rightarrow> string list \<Rightarrow> world \<Rightarrow> int \<times> world" where
  "script load dump argv w =
     (case main load dump argv w of
        (Inr status, w') \<Rightarrow> (status, w')
      | (Inl (SystemExit msg), w') \<Rightarrow> (1, w'\<lparr>err := err w' @ [msg]\<rparr>)
      | (Inl e, w') \<Rightarrow> (1, w'\<lparr>err := err w' @ [''Traceback (most recent call last):'']\<rparr>))"

subsection \<open>Notions the properties are stated with\<close>

text \<open>
  A record of the data model: a mapping whose \<open>labels\<close> field, when present, is null or
  a sequence. The entries of the sequence and all other fields are arbitrary.
\<close>

fun is_record :: "yaml \<Rightarrow> bool" where
  "is_record (YMap kvs) =
     (case map_of kvs (YStr ''labels'') of
        None \<Rightarrow> True
      | Some YNull \<Rightarrow> True
      | Some (YList labels) \<Rightarrow> True
      | Some _ \<Rightarrow> False)"
| "is_record _ = False"

text \<open>
  The three scores of a record are read off the key that \<open>sort_key_issue\<close> computes
  (the index it is given does not influence them); \<open>keyable\<close> says that the key
  function returns for the record.
\<close>

definition priority_score :: "yaml \<Rightarrow> int" where
  "priority_score r = (case sort_key_issue r 0 of Inr (p, i, e, n) \<Rightarrow> - p | Inl _ \<Rightarrow> 0)"

definition impact_score :: "yaml \<Rightarrow> int" where
  "impact_score r = (case sort_key_issue r 0 of Inr (p, i, e, n) \<Rightarrow> - i | Inl _ \<Rightarrow> 0)"

definition estimate_score :: "yaml \<Rightarrow> int" where
  "estimate_score r = (case sort_key_issue r 0 of Inr (p, i, e, n) \<Rightarrow> e | Inl _ \<Rightarrow> 0)"

definition keyable :: "yaml \<Rightarrow> bool" where
  "keyable r = (\<not> isl (sort_key_issue r 0))"

definition score_key :: "yaml \<Rightarrow> int \<times> int \<times> int" where
  "score_key r = (- priority_score r, - impact_score r, estimate_score r)"

definition rank_key :: "nat \<times> yaml \<Rightarrow> sortkey" where
  "rank_key item =
     (- priority_score (snd item), - impact_score (snd item), estimate_score (snd item),
      fst item)"

definition ranked :: "yaml list \<Rightarrow> yaml list" where
  "ranked issues = map snd (sort_key rank_key (enumerate 0 issues))"

text \<open>The document the script writes: one key, \<open>issues\<close>.\<close>

definition issues_doc :: "yaml list \<Rightarrow> yaml" where
  "issues_doc records = YMap [(YStr ''issues'', YList records)]"

subsection \<open>The normalisation and scoring rules in the specification's words\<close>

text \<open>
  These definitions follow the text of the specification, not the code; the code is
  compared with them below. A label matches when it is a string whose lower-cased form
  starts with the prefix; the value taken from it is the upper-cased text after its
  first colon.
\<close>

definition label_match :: "string \<Rightarrow> yaml \<Rightarrow> bool" where
  "label_match pre l = (case l of YStr s \<Rightarrow> startswith (lower s) pre | _ \<Rightarrow> False)"

definition after_first_colon :: "string \<Rightarrow> string" where
  "after_first_colon s = tl (dropWhile (\<lambda>c. c \<noteq> CHR '':'') s)"

definition spec_labels :: "yaml \<Rightarrow> yaml list" where
  "spec_labels r =
     (case r of
        YMap kvs \<Rightarrow> (case map_of kvs (YStr ''labels'') of Some (YList ls) \<Rightarrow> ls | _ \<Rightarrow> [])
      | _ \<Rightarrow> [])"

definition spec_from_labels :: "string \<Rightarrow> yaml list \<Rightarrow> string option" where
  "spec_from_labels pre ls =
     (case find (label_match pre) ls of
        Some (YStr s) \<Rightarrow> Some (upper (after_first_colon s))
      | _ \<Rightarrow> None)"

text \<open>
  Rule 1: a direct field that is a string, upper-cased. Rule 2 (only with a prefix):
  the first matching label. Rule 3: the default.
\<close>

definition spec_field :: "string \<Rightarrow> string option \<Rightarrow> string \<Rightarrow> yaml \<Rightarrow> string" where
  "spec_field name pre dflt r =
     (case r of
        YMap kvs \<Rightarrow>
          (case map_of kvs (YStr name) of
             Some (YStr s) \<Rightarrow> upper s
           | _ \<Rightarrow>
               (case pre of
                  None \<Rightarrow> dflt
                | Some p \<Rightarrow>
                    (case spec_from_labels p (spec_labels r) of
                       Some v \<Rightarrow> v
                     | None \<Rightarrow> dflt)))
      | _ \<Rightarrow> dflt)"

definition spec_priority_score :: "string \<Rightarrow> int" where
  "spec_priority_score s =
     (if s = ''P1'' then 3 else if s = ''P2'' then 2 else if s = ''P3'' then 1 else 1)"

definition spec_impact_score :: "string \<Rightarrow> int" where
  "spec_impact_score s =
     (if s = ''HIGH'' then 3 else if s = ''MEDIUM'' then 2 else if s = ''LOW'' then 1 else 1)"

definition spec_estimate_score :: "string \<Rightarrow> int" where
  "spec_estimate_score s =
     (if s = ''XS'' then 1 else if s = ''S'' then 2 else if s = ''M'' then 3
      else if s = ''L'' then 4 else if s = ''XL'' then 5 else 3)"

text \<open>
  A malformed document: not a mapping, or without the key \<open>issues\<close>, or with a value
  under that key that is not a sequence.
\<close>

fun malformed :: "yaml \<Rightarrow> bool" where
  "malformed (YMap kvs) =
     (case map_of kvs (YStr ''issues'') of
        None \<Rightarrow> True
      | Some (YList issues) \<Rightarrow> False
      | Some _ \<Rightarrow> True)"
| "malformed _ = True"

subsection \<open>A sample run\<close>

text \<open>
  The scenario of the specification: three records, of which the third beats the
  second on impact and the first is cut off by a limit of 2. The sample parser and
  serialiser stand in for the YAML library.
\<close>

definition scenario_issues :: "yaml list" where
  "scenario_issues =
     [YMap [(YStr ''id'', YInt 1), (YStr ''priority'', YStr ''P3'')],
      YMap [(YStr ''id'', YInt 2), (YStr ''priority'', YStr ''P1'')],
      YMap [(YStr ''id'', YInt 3), (YStr ''priority'', YStr ''P1''),
            (YStr ''impact'', YStr ''HIGH'')]]"

definition scenario_world :: world where
  "scenario_world =
     \<lparr>files = [''backlog/issues.yaml'' \<mapsto> ''text''], mkdirs = [], out = [], err = []\<rparr>"

definition scenario_load :: "string \<Rightarrow> exn + yaml" where
  "scenario_load content =
     (if content = ''text'' then Inr (issues_doc scenario_issues) else Inl YAMLError)"

definition scenario_dump :: "yaml \<Rightarrow> string" where
  "scenario_dump doc = (case doc of YMap kvs \<Rightarrow> ''issues: ...'' | _ \<Rightarrow> ''...'')"

text \<open>
  The scores of a record by the specification: each field normalised by the rules above
  and scored by the specification's tables. These definitions do not refer to the key
  function of the code.
\<close>

definition spec_priority :: "yaml \<Rightarrow> int" where
  "spec_priority r =
     spec_priority_score (spec_field ''priority'' (Some ''priority:'') ''P3'' r)"

definition spec_impact :: "yaml \<Rightarrow> int" where
  "spec_impact r = spec_impact_score (spec_field ''impact'' (Some ''impact:'') ''LOW'' r)"

definition spec_estimate :: "yaml \<Rightarrow> int" where
  "spec_estimate r = spec_estimate_score (spec_field ''estimate'' None ''M'' r)"

definition spec_normalised :: "yaml \<Rightarrow> string \<times> string \<times> string" where
  "spec_normalised r =
     (spec_field ''priority'' (Some ''priority:'') ''P3'' r,
      spec_field ''impact'' (Some ''impact:'') ''LOW'' r,
      spec_field ''estimate'' None ''M'' r)"

definition spec_scores :: "yaml \<Rightarrow> int \<times> int \<times> int" where
  "spec_scores r = (spec_priority r, spec_impact r, spec_estimate r)"

text \<open>The sort key of the specification for the record at a position.\<close>

definition spec_rank_key :: "nat \<times> yaml \<Rightarrow> sortkey" where
  "spec_rank_key item =
     (- spec_priority (snd item), - spec_impact (snd item), spec_estimate (snd item),
      fst item)"

text \<open>
  The order of the ranking in words: higher priority first, then higher impact, then
  smaller estimate, then earlier position.
\<close>

definition ranks_before :: "nat \<times> yaml \<Rightarrow> nat \<times> yaml \<Rightarrow> bool" where
  "ranks_before a b =
     (spec_priority (snd b) < spec_priority (snd a)
      \<or> (spec_priority (snd a) = spec_priority (snd b)
          \<and> (spec_impact (snd b) < spec_impact (snd a)
              \<or> (spec_impact (snd a) = spec_impact (snd b)
                  \<and> (spec_estimate (snd a) < spec_estimate (snd b)
                      \<or> (spec_estimate (snd a) = spec_estimate (snd b)
                          \<and> fst a < fst b))))))"

text \<open>The three records of the scenario in the order of their rank.\<close>

definition scenario_ranked :: "yaml list" where
  "scenario_ranked =
     [YMap [(YStr ''id'', YInt 3), (YStr ''priority'', YStr ''P1''),
            (YStr ''impact'', YStr ''HIGH'')],
      YMap [(YStr ''id'', YInt 2), (YStr ''priority'', YStr ''P1'')],
      YMap [(YStr ''id'', YInt 1), (YStr ''priority'', YStr ''P3'')]]"

text \<open>The document the specification expects for its scenario.\<close>

definition scenario_top2 :: yaml where
  "scenario_top2 = issues_doc
       [YMap [(YStr ''id'', YInt 3), (YStr ''priority'', YStr ''P1''),
              (YStr ''impact'', YStr ''HIGH'')],
        YMap [(YStr ''id'', YInt 2), (YStr ''priority'', YStr ''P1'')]]"

text \<open>\<open>isinstance(label, str)\<close>.\<close>

fun is_string :: "yaml \<Rightarrow> bool" where
  "is_string (YStr s) = True"
| "is_string _ = False"

text \<open>A record whose labels hold entries that are not strings, and one whose labels are null.\<close>

definition labelled_issue :: yaml where
  "labelled_issue =
     YMap [(YStr ''id'', YInt 7),
           (YStr ''labels'',
            YList [YInt 3, YNull, YStr ''bug'', YStr ''Priority:p1'', YStr ''priority:P2'',
                   YStr ''impact:High'']),
           (YStr ''estimate'', YStr ''xs'')]"

definition null_labels_issue :: yaml where
  "null_labels_issue = YMap [(YStr ''id'', YInt 8), (YStr ''labels'', YNull)]"

text \<open>The record has the field and its value is a string.\<close>

definition string_field :: "yaml \<Rightarrow> string \<Rightarrow> bool" where
  "string_field r name =
     (case r of
        YMap kvs \<Rightarrow> (case map_of kvs (YStr name) of Some (YStr s) \<Rightarrow> True | _ \<Rightarrow> False)
      | _ \<Rightarrow> False)"

text \<open>A parser that returns the empty mapping, the malformed document of the specification.\<close>

definition empty_load :: "string \<Rightarrow> exn + yaml" where
  "empty_load content = Inr (YMap [])"

section \<open>Auxiliary facts\<close>

subsection \<open>The label scan and the key function\<close>

lemma lower_char_colon: "lower_char c = CHR '':'' \<Longrightarrow> c = CHR '':''"
  by (simp add: lower_char_def split: if_splits)

lemma colon_in_lower: "CHR '':'' \<in> set (lower s) \<Longrightarrow> CHR '':'' \<in> set s"
proof -
  assume "CHR '':'' \<in> set (lower s)"
  then obtain c where "c \<in> set s" and "lower_char c = CHR '':''"
    by (auto simp: lower_def)
  then show ?thesis
    using lower_char_colon by blast
qed

lemma startswith_colon:
  assumes "startswith (lower s) pre" and "CHR '':'' \<in> set pre"
  shows "CHR '':'' \<in> set s"
proof -
  from assms(1) have "pre = take (length pre) (lower s)"
    by (simp add: startswith_def)
  then have "set pre \<subseteq> set (lower s)"
    by (metis set_take_subset)
  with assms(2) show ?thesis
    by (auto intro: colon_in_lower)
qed

lemma subscript_split_colon:
  "CHR '':'' \<in> set s \<Longrightarrow> subscript (split_once CHR '':'' s) 1 = Inr (after_first_colon s)"
  by (simp add: subscript_def split_once_def after_first_colon_def)

lemma subscript_split_colon_Suc:
  "CHR '':'' \<in> set s \<Longrightarrow>
     subscript (split_once CHR '':'' s) (Suc 0) = Inr (after_first_colon s)"
  using subscript_split_colon by simp

lemma scan_labels_spec:
  "CHR '':'' \<in> set pre \<Longrightarrow> scan_labels pre ls = Inr (spec_from_labels pre ls)"
proof (induction pre ls rule: scan_labels.induct)
  case (2 pre label rest)
  then show ?case
    by (auto simp: spec_from_labels_def label_match_def subscript_split_colon_Suc
        dest: startswith_colon)
qed (simp_all add: spec_from_labels_def label_match_def)

lemma labels_iter_record: "is_record r \<Longrightarrow> labels_iter r = Inr (spec_labels r)"
  by (cases r) (auto simp: labels_iter_def spec_labels_def split: option.splits yaml.splits)

lemma sort_key_issue_index:
  "sort_key_issue r i = Inr k \<Longrightarrow>
     sort_key_issue r j = Inr (fst k, fst (snd k), fst (snd (snd k)), j)"
  by (auto simp: sort_key_issue_def Let_def split: sum.splits)

lemma table_defaults:
  "table_index PRIORITY_ORDER DEFAULT_PRIORITY = Inr 1"
  "table_index IMPACT_ORDER (upper DEFAULT_IMPACT) = Inr 1"
  "table_index ESTIMATE_ORDER DEFAULT_ESTIMATE = Inr 3"
  by (simp_all add: table_index_def PRIORITY_ORDER_def DEFAULT_PRIORITY_def IMPACT_ORDER_def
      DEFAULT_IMPACT_def ESTIMATE_ORDER_def DEFAULT_ESTIMATE_def upper_def upper_char_def)

lemma keys_record:
  assumes "is_record r"
  shows "\<exists>k. sort_key_issue r i = Inr k"
proof -
  obtain kvs where r: "r = YMap kvs"
    using assms by (cases r) simp_all
  have l: "labels_iter r = Inr (spec_labels r)"
    using assms by (rule labels_iter_record)
  have p: "\<exists>v. normalise_priority r = Inr v"
    by (auto simp: normalise_priority_def r l [unfolded r] scan_labels_spec
        split: option.splits yaml.splits)
  have i: "\<exists>v. normalise_impact r = Inr v"
    by (auto simp: normalise_impact_def r l [unfolded r] scan_labels_spec
        split: option.splits yaml.splits)
  have e: "\<exists>v. normalise_estimate r = Inr v"
    by (auto simp: normalise_estimate_def r split: option.splits yaml.splits)
  from p i e show ?thesis
    by (auto simp: sort_key_issue_def table_defaults)
qed

subsection \<open>Decorating, sorting, undecorating\<close>

lemma keyable_record: "is_record r \<Longrightarrow> keyable r"
  using keys_record [of r 0] by (auto simp: keyable_def)

lemma sort_key_issue_keyable: "keyable r \<Longrightarrow> sort_key_issue r j = Inr (rank_key (j, r))"
proof -
  assume "keyable r"
  then obtain k where k: "sort_key_issue r 0 = Inr k"
    by (cases "sort_key_issue r 0") (simp_all add: keyable_def)
  obtain p i e n where "k = (p, i, e, n)"
    by (cases k) auto
  with k sort_key_issue_index [OF k, of j] show ?thesis
    by (simp add: rank_key_def priority_score_def impact_score_def estimate_score_def)
qed

lemma sort_key_issue_Inr: "sort_key_issue r i = Inr k \<Longrightarrow> keyable r"
  using sort_key_issue_index [of r i k 0] by (simp add: keyable_def)

lemma keyed_keyable:
  "\<forall>item \<in> set items. keyable (snd item) \<Longrightarrow>
     keyed items = Inr (map (\<lambda>item. (rank_key item, item)) items)"
  by (induction items) (simp_all add: sort_key_issue_keyable)

lemma keyed_Inr: "keyed items = Inr ks \<Longrightarrow> \<forall>item \<in> set items. keyable (snd item)"
  by (induction items arbitrary: ks) (auto split: sum.splits dest: sort_key_issue_Inr)

lemma insort_key_decorated:
  "insort_key fst (f x, x) (map (\<lambda>y. (f y, y)) ys) = map (\<lambda>y. (f y, y)) (insort_key f x ys)"
  by (induction ys) simp_all

lemma sort_key_decorated:
  "sort_key fst (map (\<lambda>y. (f y, y)) xs) = map (\<lambda>y. (f y, y)) (sort_key f xs)"
  by (induction xs) (simp_all add: insort_key_decorated)

lemma snd_image_enumerate: "snd ` set (enumerate n xs) = set xs"
  by (metis map_snd_enumerate set_map)

lemma snd_set_enumerate: "item \<in> set (enumerate n xs) \<Longrightarrow> snd item \<in> set xs"
  using snd_image_enumerate [of n xs] by blast

lemma sorted_issues_keyable:
  assumes "\<forall>r \<in> set issues. keyable r"
  shows "sorted_issues issues = Inr (ranked issues)"
proof -
  have "\<forall>item \<in> set (enumerate 0 issues). keyable (snd item)"
    using assms snd_set_enumerate by blast
  then have "keyed (enumerate 0 issues) =
      Inr (map (\<lambda>item. (rank_key item, item)) (enumerate 0 issues))"
    by (rule keyed_keyable)
  then show ?thesis
    by (simp add: sorted_issues_def sort_key_decorated ranked_def comp_def case_prod_beta)
qed

lemma sorted_issues_Inr:
  assumes "sorted_issues issues = Inr ys"
  shows "(\<forall>r \<in> set issues. keyable r) \<and> ys = ranked issues"
proof -
  from assms obtain ks where "keyed (enumerate 0 issues) = Inr ks"
    by (auto simp: sorted_issues_def split: sum.splits)
  then have "\<forall>item \<in> set (enumerate 0 issues). keyable (snd item)"
    by (rule keyed_Inr)
  then have k: "\<forall>r \<in> set issues. keyable r"
    using snd_image_enumerate [of 0 issues] by force
  with assms sorted_issues_keyable [OF k] show ?thesis
    by simp
qed

lemma mset_ranked: "mset (ranked issues) = mset issues"
proof -
  have "mset (ranked issues) = image_mset snd (mset (sort_key rank_key (enumerate 0 issues)))"
    by (simp add: ranked_def)
  also have "\<dots> = mset (map snd (enumerate 0 issues))"
    by (simp only: mset_sort mset_map)
  finally show ?thesis
    by simp
qed

lemma length_ranked: "length (ranked issues) = length issues"
  by (simp add: ranked_def)

lemma score_key_mono: "rank_key a \<le> rank_key b \<Longrightarrow> score_key (snd a) \<le> score_key (snd b)"
  by (auto simp: rank_key_def score_key_def)

lemma sorted_score_ranked: "sorted (map score_key (ranked issues))"
proof -
  have "sorted (map rank_key (sort_key rank_key (enumerate 0 issues)))"
    by (rule sorted_sort_key)
  then have "sorted_wrt (\<lambda>a b. rank_key a \<le> rank_key b) (sort_key rank_key (enumerate 0 issues))"
    by (simp add: sorted_map)
  then have "sorted_wrt (\<lambda>a b. score_key (snd a) \<le> score_key (snd b))
      (sort_key rank_key (enumerate 0 issues))"
    by (rule sorted_wrt_mono_rel [rotated]) (auto intro: score_key_mono)
  then show ?thesis
    by (simp add: ranked_def sorted_map sorted_wrt_map)
qed

lemma sorted_rank_key_enumerate:
  "sorted (map score_key ys) \<Longrightarrow> sorted (map rank_key (enumerate n ys))"
proof (induction ys arbitrary: n)
  case Nil
  then show ?case by simp
next
  case (Cons y ys)
  have "rank_key (n, y) \<le> rank_key item" if "item \<in> set (enumerate (Suc n) ys)" for item
  proof -
    from that have "Suc n \<le> fst item"
      by (simp add: in_set_enumerate_eq)
    moreover from that have "snd item \<in> set ys"
      by (rule snd_set_enumerate)
    moreover from Cons.prems \<open>snd item \<in> set ys\<close> have "score_key y \<le> score_key (snd item)"
      by auto
    ultimately show ?thesis
      by (auto simp: rank_key_def score_key_def)
  qed
  moreover from Cons have "sorted (map rank_key (enumerate (Suc n) ys))"
    by simp
  ultimately show ?case
    by auto
qed

lemma ranked_id: "sorted (map score_key ys) \<Longrightarrow> ranked ys = ys"
  by (simp add: ranked_def sort_key_id_if_sorted sorted_rank_key_enumerate)

subsection \<open>Stability\<close>

lemma inj_fst_enumerate: "inj_on fst (set (enumerate n xs))"
proof -
  have "distinct (map fst (enumerate n xs))"
    by simp
  then show ?thesis
    by (simp only: distinct_map)
qed

lemma same_score_index:
  "rank_key a \<le> rank_key b \<Longrightarrow> score_key (snd a) = score_key (snd b) \<Longrightarrow> fst a \<le> fst b"
  by (auto simp: rank_key_def score_key_def)

lemma sort_filter_enumerate:
  fixes s :: "int \<times> int \<times> int"
  defines "P \<equiv> \<lambda>item. score_key (snd item) = s"
  shows "filter P (sort_key rank_key (enumerate 0 xs)) = filter P (enumerate 0 xs)"
proof (rule map_sorted_distinct_set_unique [where f = fst])
  let ?es = "enumerate 0 xs"
  let ?L = "filter P (sort_key rank_key ?es)"
  let ?R = "filter P ?es"
  show "inj_on fst (set ?L \<union> set ?R)"
    by (rule inj_on_subset [OF inj_fst_enumerate [of 0 xs]]) auto
  have "sorted (map rank_key ?L)"
    by (rule sorted_filter) (rule sorted_sort_key)
  then have "sorted_wrt (\<lambda>a b. rank_key a \<le> rank_key b) ?L"
    by (simp only: sorted_map)
  then have "sorted_wrt (\<lambda>a b. fst a \<le> fst b) ?L"
    by (rule sorted_wrt_mono_rel [rotated]) (auto simp: P_def intro: same_score_index)
  then show "sorted (map fst ?L)"
    by (simp only: sorted_map)
  have "distinct (map fst (sort_key rank_key ?es))"
    using inj_fst_enumerate [of 0 xs] by (simp add: distinct_map)
  then show "distinct (map fst ?L)"
    by (rule distinct_map_filter)
  show "sorted (map fst ?R)"
    by (rule sorted_filter) (rule sorted_enumerate)
  have "distinct (map fst ?es)"
    by simp
  then show "distinct (map fst ?R)"
    by (rule distinct_map_filter)
  show "set ?L = set ?R"
    by simp
qed

lemma ranked_stable:
  "filter (\<lambda>r. score_key r = s) (ranked issues) = filter (\<lambda>r. score_key r = s) issues"
proof -
  have "filter (\<lambda>r. score_key r = s) (ranked issues) =
      map snd (filter (\<lambda>item. score_key (snd item) = s) (sort_key rank_key (enumerate 0 issues)))"
    by (simp add: ranked_def filter_map comp_def)
  also have "\<dots> = map snd (filter (\<lambda>item. score_key (snd item) = s) (enumerate 0 issues))"
    by (simp only: sort_filter_enumerate)
  also have "\<dots> = filter (\<lambda>r. score_key r = s) (map snd (enumerate 0 issues))"
    by (simp only: filter_map comp_def)
  finally show ?thesis
    by simp
qed

subsection \<open>The result document\<close>

lemma select_result_keyable:
  assumes "map_of kvs (YStr ''issues'') = Some (YList issues)"
    and "\<forall>r \<in> set issues. keyable r"
  shows "select_result (YMap kvs) limit = Inr (issues_doc (slice_to (ranked issues) limit))"
  using assms by (simp add: select_result_def sorted_issues_keyable issues_doc_def)

lemma select_result_Inr:
  assumes "select_result data limit = Inr doc"
  shows "\<exists>kvs issues. data = YMap kvs \<and> map_of kvs (YStr ''issues'') = Some (YList issues)
           \<and> (\<forall>r \<in> set issues. keyable r)
           \<and> doc = issues_doc (slice_to (ranked issues) limit)"
  using assms
  by (auto simp: select_result_def issues_doc_def split: yaml.splits option.splits sum.splits
      dest: sorted_issues_Inr)

lemma length_slice_to:
  "0 \<le> limit \<Longrightarrow> length (slice_to xs limit) = min (nat limit) (length xs)"
  by (simp add: slice_to_def)

lemma scenario_records: "\<forall>r \<in> set scenario_issues. is_record r"
  by (simp add: scenario_issues_def)

lemma scenario_file: "files scenario_world ''backlog/issues.yaml'' = Some ''text''"
  by (simp add: scenario_world_def)

lemma scenario_parsed:
  "scenario_load ''text'' = Inr (YMap [(YStr ''issues'', YList scenario_issues)])"
  by (simp add: scenario_load_def issues_doc_def)

lemma scenario_lookup:
  "map_of [(YStr ''issues'', YList scenario_issues)] (YStr ''issues'') =
     Some (YList scenario_issues)"
  by simp

text \<open>The model reproduces the outcome the specification gives for its scenario.\<close>

lemma scenario_result:
  "select_result (issues_doc scenario_issues) 2 =
     Inr (issues_doc
       [YMap [(YStr ''id'', YInt 3), (YStr ''priority'', YStr ''P1''),
              (YStr ''impact'', YStr ''HIGH'')],
        YMap [(YStr ''id'', YInt 2), (YStr ''priority'', YStr ''P1'')]])"
  by code_simp

subsection \<open>Order, truncation and the records kept\<close>

lemma ranks_before_iff: "ranks_before a b \<longleftrightarrow> spec_rank_key a < spec_rank_key b"
  by (auto simp: ranks_before_def spec_rank_key_def)

lemma inj_rank_key_enumerate: "inj_on rank_key (set (enumerate n xs))"
proof (rule inj_onI)
  fix a b
  assume "a \<in> set (enumerate n xs)" and "b \<in> set (enumerate n xs)"
    and "rank_key a = rank_key b"
  then show "a = b"
    using inj_fst_enumerate [of n xs] by (auto simp: rank_key_def dest: inj_onD)
qed

lemma strict_sorted_rank:
  "sorted_wrt (\<lambda>a b. rank_key a < rank_key b) (sort_key rank_key (enumerate 0 xs))"
proof -
  let ?items = "sort_key rank_key (enumerate 0 xs)"
  have "sorted (map rank_key ?items)"
    by (rule sorted_sort_key)
  moreover have "distinct (map rank_key ?items)"
    using inj_rank_key_enumerate [of 0 xs] by (simp add: distinct_map)
  ultimately have "sorted_wrt (<) (map rank_key ?items)"
    by (simp only: strict_sorted_iff)
  then show ?thesis
    by (simp only: sorted_wrt_map)
qed

lemma slice_to_take: "\<exists>n. slice_to xs limit = take n xs"
  by (auto simp: slice_to_def)

lemma sorted_score_slice: "sorted (map score_key (slice_to (ranked issues) limit))"
proof -
  obtain n where "slice_to (ranked issues) limit = take n (ranked issues)"
    using slice_to_take by blast
  moreover have "sorted (take n (map score_key (ranked issues)))"
    using sorted_score_ranked by (rule sorted_wrt_take)
  ultimately show ?thesis
    by (simp add: take_map)
qed

lemma set_slice_to: "set (slice_to xs limit) \<subseteq> set xs"
  using slice_to_take [of xs limit] by (auto dest: in_set_takeD)

lemma mset_slice_to: "mset (slice_to xs limit) \<subseteq># mset xs"
proof -
  obtain n where "slice_to xs limit = take n xs"
    using slice_to_take by blast
  then show ?thesis
    by (metis append_take_drop_id mset_append mset_subset_eq_add_left)
qed

lemma set_ranked: "set (ranked issues) = set issues"
  by (metis mset_ranked set_mset_mset)

lemma score_key_le:
  assumes "score_key a \<le> score_key b"
  shows "priority_score b \<le> priority_score a
      \<and> (priority_score b = priority_score a \<longrightarrow> impact_score b \<le> impact_score a)
      \<and> (priority_score b = priority_score a \<and> impact_score b = impact_score a \<longrightarrow>
           estimate_score a \<le> estimate_score b)"
proof -
  from assms have "- priority_score a < - priority_score b
      \<or> (- priority_score a \<le> - priority_score b
          \<and> (- impact_score a < - impact_score b
              \<or> (- impact_score a \<le> - impact_score b
                  \<and> estimate_score a \<le> estimate_score b)))"
    by (simp add: score_key_def)
  then show ?thesis
    by linarith
qed


lemma scenario_top2_result: "select_result (issues_doc scenario_issues) 2 = Inr scenario_top2"
  using scenario_result by (simp only: scenario_top2_def)


subsection \<open>Normalisation against the specification's rules\<close>

lemma colon_in_prefixes:
  "CHR '':'' \<in> set ''priority:''" "CHR '':'' \<in> set ''impact:''"
  by simp_all

lemma normalise_priority_record:
  assumes "is_record r"
  shows "normalise_priority r = Inr (spec_field ''priority'' (Some ''priority:'') ''P3'' r)"
proof -
  obtain kvs where r: "r = YMap kvs"
    using assms by (cases r) simp_all
  have "labels_iter (YMap kvs) = Inr (spec_labels (YMap kvs))"
    using assms unfolding r by (rule labels_iter_record)
  then show ?thesis
    by (auto simp: r normalise_priority_def spec_field_def scan_labels_spec DEFAULT_PRIORITY_def
        split: option.splits yaml.splits)
qed

lemma normalise_impact_record:
  assumes "is_record r"
  shows "normalise_impact r = Inr (spec_field ''impact'' (Some ''impact:'') ''LOW'' r)"
proof -
  obtain kvs where r: "r = YMap kvs"
    using assms by (cases r) simp_all
  have "labels_iter (YMap kvs) = Inr (spec_labels (YMap kvs))"
    using assms unfolding r by (rule labels_iter_record)
  moreover have "upper DEFAULT_IMPACT = ''LOW''"
    by (simp add: DEFAULT_IMPACT_def upper_def upper_char_def)
  ultimately show ?thesis
    by (auto simp: r normalise_impact_def spec_field_def scan_labels_spec
        split: option.splits yaml.splits)
qed

lemma normalise_estimate_record:
  assumes "is_record r"
  shows "normalise_estimate r = Inr (spec_field ''estimate'' None ''M'' r)"
proof -
  obtain kvs where r: "r = YMap kvs"
    using assms by (cases r) simp_all
  show ?thesis
    by (auto simp: r normalise_estimate_def spec_field_def DEFAULT_ESTIMATE_def
        split: option.splits yaml.splits)
qed

lemma table_get_priority: "table_get PRIORITY_ORDER s 1 = spec_priority_score s"
  by (simp add: table_get_def PRIORITY_ORDER_def spec_priority_score_def)

lemma table_get_impact: "table_get IMPACT_ORDER s 1 = spec_impact_score s"
  by (simp add: table_get_def IMPACT_ORDER_def spec_impact_score_def)

lemma table_get_estimate: "table_get ESTIMATE_ORDER s 3 = spec_estimate_score s"
  by (simp add: table_get_def ESTIMATE_ORDER_def spec_estimate_score_def)

lemma scan_labels_strings: "scan_labels pre (filter is_string ls) = scan_labels pre ls"
  by (induction pre ls rule: scan_labels.induct) simp_all

lemma spec_from_labels_strings:
  "spec_from_labels pre (filter is_string ls) = spec_from_labels pre ls"
proof -
  have "find (label_match pre) (filter is_string ls) = find (label_match pre) ls"
    by (induction ls) (auto simp: label_match_def split: yaml.splits)
  then show ?thesis
    by (simp add: spec_from_labels_def)
qed

lemma spec_from_labels_first:
  assumes "\<not> list_ex (label_match pre) before" and "label_match pre (YStr s)"
  shows "spec_from_labels pre (before @ YStr s # after) = Some (upper (after_first_colon s))"
proof -
  from assms have "find (label_match pre) (before @ YStr s # after) = Some (YStr s)"
    by (induction before) (simp_all add: list_ex_iff)
  then show ?thesis
    by (simp add: spec_from_labels_def)
qed

lemma labelled_record: "is_record labelled_issue"
  by (simp add: labelled_issue_def)

lemma null_labels_record: "is_record null_labels_issue"
  by (simp add: null_labels_issue_def)

lemma spec_field_labels:
  assumes "is_record r" and "\<not> string_field r name"
  shows "spec_field name (Some pre) dflt r =
     (case spec_from_labels pre (spec_labels r) of Some v \<Rightarrow> v | None \<Rightarrow> dflt)"
proof -
  obtain kvs where r: "r = YMap kvs"
    using assms(1) by (cases r) simp_all
  from assms(2) show ?thesis
    by (auto simp: r spec_field_def string_field_def split: option.splits yaml.splits)
qed

lemma labels_null:
  assumes "dict_get r ''labels'' = Inr (Some YNull)"
  shows "labels_iter r = Inr []"
  using assms by (simp add: labels_iter_def)

lemma scan_labels_record:
  assumes "CHR '':'' \<in> set pre"
  shows "scan_labels pre ls = Inr (spec_from_labels pre (filter is_string ls))"
  using assms by (simp add: scan_labels_spec spec_from_labels_strings)

lemma first_label_wins:
  assumes "is_record r" and "\<not> string_field r name"
    and "spec_labels r = before @ YStr s # after"
    and "\<not> list_ex (label_match pre) before" and "label_match pre (YStr s)"
  shows "spec_field name (Some pre) dflt r = upper (after_first_colon s)"
  using assms by (simp add: spec_field_labels spec_from_labels_first)

lemma labelled_labels:
  "spec_labels labelled_issue =
     [YInt 3, YNull, YStr ''bug''] @ YStr ''Priority:p1'' # [YStr ''priority:P2'', YStr ''impact:High'']"
  by (simp add: spec_labels_def labelled_issue_def)

lemma labelled_before: "\<not> list_ex (label_match ''priority:'') [YInt 3, YNull, YStr ''bug'']"
  by (simp add: label_match_def startswith_def lower_def lower_char_def)

lemma labelled_match: "label_match ''priority:'' (YStr ''Priority:p1'')"
  by (simp add: label_match_def startswith_def lower_def lower_char_def)

lemma labelled_no_priority: "\<not> string_field labelled_issue ''priority''"
  by (simp add: string_field_def labelled_issue_def)

lemma null_labels_lookup: "dict_get null_labels_issue ''labels'' = Inr (Some YNull)"
  by (simp add: null_labels_issue_def)

subsection \<open>Runs of the script\<close>

lemma malformed_result:
  assumes "malformed data"
  shows "\<exists>msg. select_result data limit = Inl (SystemExit msg)"
  using assms
  by (cases data) (auto simp: select_result_def split: option.splits yaml.splits)

lemma main_three:
  assumes "files w source = Some content"
  shows "main load dump [prog, source, target] w =
     (case select_top_issues load dump source target 10 (w\<lparr>mkdirs := mkdirs w @ [target]\<rparr>) of
        (Inl e, w') \<Rightarrow> (Inl e, w')
      | (Inr u, w') \<Rightarrow> (Inr 0, w'\<lparr>out := out w' @ [''Top issues written to '' @ target]\<rparr>))"
  using assms by (simp add: main_def)

lemma empty_malformed: "malformed (YMap [])"
  by simp

lemma empty_parsed: "empty_load ''text'' = Inr (YMap [])"
  by (simp add: empty_load_def)

lemma select_top_issues_records:
  assumes "files w source = Some content"
    and "load content = Inr (YMap kvs)"
    and "map_of kvs (YStr ''issues'') = Some (YList issues)"
    and "\<forall>r \<in> set issues. is_record r"
  shows "select_top_issues load dump source target limit w =
     (Inr (), w\<lparr>files := (files w)(target \<mapsto>
        dump (issues_doc (slice_to (ranked issues) limit)))\<rparr>)"
proof -
  from assms(4) have "\<forall>r \<in> set issues. keyable r"
    by (simp add: keyable_record)
  with assms(3) have "select_result (YMap kvs) limit =
      Inr (issues_doc (slice_to (ranked issues) limit))"
    by (rule select_result_keyable)
  with assms(1,2) show ?thesis
    by (simp add: select_top_issues_def)
qed

lemma script_usage:
  assumes "length argv \<noteq> 3"
  shows "script load dump argv w = (1, w\<lparr>err := err w @ [usage]\<rparr>)"
  using assms by (simp add: script_def main_def)

lemma script_missing:
  assumes "files w source = None"
  shows "script load dump [prog, source, target] w =
     (1, w\<lparr>err := err w @ [''Input file not found: '' @ source]\<rparr>)"
  using assms by (simp add: script_def main_def)

lemma script_success:
  assumes "files w source = Some content"
    and "load content = Inr (YMap kvs)"
    and "map_of kvs (YStr ''issues'') = Some (YList issues)"
    and "\<forall>r \<in> set issues. is_record r"
  shows "script load dump [prog, source, target] w =
     (0, w\<lparr>files := (files w)(target \<mapsto> dump (issues_doc (slice_to (ranked issues) 10))),
          mkdirs := mkdirs w @ [target],
          out := out w @ [''Top issues written to '' @ target]\<rparr>)"
proof -
  have "files (w\<lparr>mkdirs := mkdirs w @ [target]\<rparr>) source = Some content"
    using assms(1) by simp
  then have "select_top_issues load dump source target 10 (w\<lparr>mkdirs := mkdirs w @ [target]\<rparr>) =
      (Inr (), w\<lparr>mkdirs := mkdirs w @ [target]\<rparr>\<lparr>files :=
         (files (w\<lparr>mkdirs := mkdirs w @ [target]\<rparr>))(target \<mapsto>
            dump (issues_doc (slice_to (ranked issues) 10)))\<rparr>)"
    using assms(2,3,4) by (rule select_top_issues_records)
  then show ?thesis
    using assms(1) by (simp add: script_def main_three)
qed

lemma scenario_missing: "files scenario_world ''backlog/none.yaml'' = None"
  by (simp add: scenario_world_def)

subsection \<open>The code's key against the specification's key\<close>

lemma sort_key_issue_spec:
  assumes "is_record r"
  shows "sort_key_issue r i = Inr (spec_rank_key (i, r))"
  by (simp add: sort_key_issue_def normalise_priority_record [OF assms]
      normalise_impact_record [OF assms] normalise_estimate_record [OF assms]
      table_defaults table_get_priority table_get_impact table_get_estimate
      spec_rank_key_def spec_priority_def spec_impact_def spec_estimate_def)

lemma scores_record:
  assumes "is_record r"
  shows "priority_score r = spec_priority r"
    and "impact_score r = spec_impact r"
    and "estimate_score r = spec_estimate r"
  using sort_key_issue_spec [OF assms, of 0]
  by (simp_all add: priority_score_def impact_score_def estimate_score_def spec_rank_key_def)

lemma rank_key_record: "is_record (snd item) \<Longrightarrow> rank_key item = spec_rank_key item"
  by (simp add: rank_key_def spec_rank_key_def scores_record)

lemma score_key_record:
  "is_record r \<Longrightarrow> score_key r = (- spec_priority r, - spec_impact r, spec_estimate r)"
  by (simp add: score_key_def scores_record)

lemma score_key_scores:
  "is_record r \<Longrightarrow>
     score_key r = (- fst s, - fst (snd s), snd (snd s)) \<longleftrightarrow> spec_scores r = s"
  by (cases s) (auto simp: score_key_record spec_scores_def)

lemma spec_scores_normalised:
  "spec_scores r =
     (spec_priority_score (fst (spec_normalised r)),
      spec_impact_score (fst (snd (spec_normalised r))),
      spec_estimate_score (snd (snd (spec_normalised r))))"
  by (simp add: spec_scores_def spec_normalised_def spec_priority_def spec_impact_def
      spec_estimate_def)

lemma filter_refine:
  assumes "\<forall>x \<in> set xs. P x \<longrightarrow> Q x"
  shows "filter P (filter Q xs) = filter P xs"
  using assms by (induction xs) auto

lemma records_enumerate:
  assumes "\<forall>r \<in> set issues. is_record r" and "item \<in> set (enumerate n issues)"
  shows "is_record (snd item)"
  using assms snd_set_enumerate by blast

lemma sorted_spec_rank:
  assumes "\<forall>r \<in> set issues. is_record r"
  shows "sorted_wrt (\<lambda>a b. spec_rank_key a < spec_rank_key b)
     (sort_key rank_key (enumerate 0 issues))"
proof -
  let ?items = "sort_key rank_key (enumerate 0 issues)"
  have r: "is_record (snd item)" if "item \<in> set ?items" for item
    using that assms records_enumerate [of issues item 0] by simp
  have "sorted_wrt (\<lambda>a b. rank_key a < rank_key b) ?items"
    by (rule strict_sorted_rank)
  then show ?thesis
    by (rule sorted_wrt_mono_rel [rotated]) (simp add: r rank_key_record)
qed

lemma stable_spec_scores:
  assumes "\<forall>r \<in> set issues. is_record r"
  shows "filter (\<lambda>item. spec_scores (snd item) = s) (sort_key rank_key (enumerate 0 issues)) =
     filter (\<lambda>item. spec_scores (snd item) = s) (enumerate 0 issues)"
proof -
  let ?es = "enumerate 0 issues"
  let ?items = "sort_key rank_key ?es"
  let ?k = "(- fst s, - fst (snd s), snd (snd s))"
  have e: "is_record (snd item)" if "item \<in> set ?es" for item
    using that assms by (rule records_enumerate [rotated])
  have "filter (\<lambda>item. spec_scores (snd item) = s) ?items =
      filter (\<lambda>item. score_key (snd item) = ?k) ?items"
    by (rule filter_cong) (simp_all add: e score_key_scores)
  also have "\<dots> = filter (\<lambda>item. score_key (snd item) = ?k) ?es"
    by (rule sort_filter_enumerate)
  also have "\<dots> = filter (\<lambda>item. spec_scores (snd item) = s) ?es"
    by (rule filter_cong) (simp_all add: e score_key_scores)
  finally show ?thesis .
qed

lemma stable_spec_normalised:
  assumes "\<forall>r \<in> set issues. is_record r"
  shows "filter (\<lambda>item. spec_normalised (snd item) = t)
       (sort_key rank_key (enumerate 0 issues)) =
     filter (\<lambda>item. spec_normalised (snd item) = t) (enumerate 0 issues)"
proof -
  let ?es = "enumerate 0 issues"
  let ?items = "sort_key rank_key ?es"
  let ?s = "(spec_priority_score (fst t), spec_impact_score (fst (snd t)),
    spec_estimate_score (snd (snd t)))"
  let ?P = "\<lambda>item. spec_normalised (snd item) = t"
  let ?Q = "\<lambda>item. spec_scores (snd item) = ?s"
  have pq: "?P item \<longrightarrow> ?Q item" for item :: "nat \<times> yaml"
    using spec_scores_normalised [of "snd item"] by auto
  have "filter ?P ?items = filter ?P (filter ?Q ?items)"
    by (rule filter_refine [symmetric]) (simp add: pq)
  also have "\<dots> = filter ?P (filter ?Q ?es)"
    by (simp only: stable_spec_scores [OF assms])
  also have "\<dots> = filter ?P ?es"
    by (rule filter_refine) (simp add: pq)
  finally show ?thesis .
qed

lemma spec_scores_le:
  assumes "(- spec_priority a, - spec_impact a, spec_estimate a)
      \<le> (- spec_priority b, - spec_impact b, spec_estimate b)"
  shows "spec_priority b \<le> spec_priority a
      \<and> (spec_priority b = spec_priority a \<longrightarrow> spec_impact b \<le> spec_impact a)
      \<and> (spec_priority b = spec_priority a \<and> spec_impact b = spec_impact a \<longrightarrow>
           spec_estimate a \<le> spec_estimate b)"
proof -
  from assms have "- spec_priority a < - spec_priority b
      \<or> (- spec_priority a \<le> - spec_priority b
          \<and> (- spec_impact a < - spec_impact b
              \<or> (- spec_impact a \<le> - spec_impact b
                  \<and> spec_estimate a \<le> spec_estimate b)))"
    by simp
  then show ?thesis
    by linarith
qed

text \<open>The scenario, ranked in full, and the scores the specification gives its records.\<close>

lemma scenario_sorted: "sorted_issues scenario_issues = Inr scenario_ranked"
  by code_simp

lemma scenario_scores:
  "map spec_scores scenario_ranked = [(3, 3, 3), (3, 1, 3), (1, 1, 3)]"
  by code_simp

section \<open>The claims\<close>

text \<open>
  C1. For a document whose \<open>issues\<close> value is a list of records and a limit that is not
  negative, the run succeeds and the sequence written under \<open>issues\<close> in the output
  document has length \<open>min limit (length issues)\<close>; with limit 0 it is empty.
\<close>

theorem select_length:
  assumes "files w source = Some content"
    and "load content = Inr (YMap kvs)"
    and "map_of kvs (YStr ''issues'') = Some (YList issues)"
    and "\<forall>r \<in> set issues. is_record r"
    and "0 \<le> limit"
  shows "\<exists>records.
           select_top_issues load dump source target limit w =
             (Inr (), w\<lparr>files := (files w)(target \<mapsto> dump (issues_doc records))\<rparr>)
           \<and> length records = min (nat limit) (length issues)
           \<and> (limit = 0 \<longrightarrow> records = [])"
proof -
  from assms(4) have "\<forall>r \<in> set issues. keyable r"
    by (simp add: keyable_record)
  with assms(3) have "select_result (YMap kvs) limit =
      Inr (issues_doc (slice_to (ranked issues) limit))"
    by (rule select_result_keyable)
  with assms(1,2) have "select_top_issues load dump source target limit w =
      (Inr (), w\<lparr>files := (files w)(target \<mapsto>
         dump (issues_doc (slice_to (ranked issues) limit)))\<rparr>)"
    by (simp add: select_top_issues_def)
  moreover from assms(5) have "length (slice_to (ranked issues) limit) =
      min (nat limit) (length issues)"
    by (simp add: length_slice_to length_ranked)
  moreover have "limit = 0 \<longrightarrow> slice_to (ranked issues) limit = []"
    by (simp add: slice_to_def)
  ultimately show ?thesis
    by blast
qed

theorem select_length_witness:
  "files scenario_world ''backlog/issues.yaml'' = Some ''text''
   \<and> scenario_load ''text'' = Inr (YMap [(YStr ''issues'', YList scenario_issues)])
   \<and> list_all is_record scenario_issues
   \<and> (\<exists>records.
         select_top_issues scenario_load scenario_dump
             ''backlog/issues.yaml'' ''backlog/top.yaml'' 2 scenario_world =
           (Inr (), scenario_world\<lparr>files :=
              (files scenario_world)(''backlog/top.yaml'' \<mapsto>
                 scenario_dump (issues_doc records))\<rparr>)
         \<and> length records = min (nat 2) (length scenario_issues)
         \<and> ((2::int) = 0 \<longrightarrow> records = []))"
proof -
  have z: "(0::int) \<le> 2"
    by simp
  from select_length [where load = scenario_load and dump = scenario_dump
      and target = "''backlog/top.yaml''",
      OF scenario_file scenario_parsed scenario_lookup scenario_records z]
    scenario_file scenario_parsed scenario_records
  show ?thesis
    unfolding list_all_iff by blast
qed

text \<open>
  C2. For a list of records the ranker returns the records of the input, each with its
  original position, in strictly ascending order of the specification's key
  \<open>(- priority score, - impact score, estimate score, position)\<close>, where the scores
  are those of the specification's tables on the specification's normalised values:
  \<open>P1\<close> before \<open>P2\<close> before \<open>P3\<close>, then \<open>HIGH\<close> before \<open>MEDIUM\<close> before \<open>LOW\<close>, then
  \<open>XS\<close> up to \<open>XL\<close>, then the earlier position. The key the code computes for every
  record is that key. Records whose normalised priority, impact and estimate are
  equal, and more generally records of equal scores, keep the relative order they have
  in the input.
\<close>

theorem ranking_order:
  assumes "\<forall>r \<in> set issues. is_record r"
  shows "\<exists>items.
           sorted_issues issues = Inr (map snd items)
           \<and> mset items = mset (enumerate 0 issues)
           \<and> (\<forall>item \<in> set items.
                 sort_key_issue (snd item) (fst item) = Inr (spec_rank_key item))
           \<and> sorted_wrt (\<lambda>a b. spec_rank_key a < spec_rank_key b) items
           \<and> sorted_wrt ranks_before items
           \<and> (\<forall>t. filter (\<lambda>item. spec_normalised (snd item) = t) items =
                    filter (\<lambda>item. spec_normalised (snd item) = t) (enumerate 0 issues))
           \<and> (\<forall>s. filter (\<lambda>item. spec_scores (snd item) = s) items =
                    filter (\<lambda>item. spec_scores (snd item) = s) (enumerate 0 issues))"
proof -
  let ?items = "sort_key rank_key (enumerate 0 issues)"
  from assms have k: "\<forall>r \<in> set issues. keyable r"
    by (simp add: keyable_record)
  then have "sorted_issues issues = Inr (map snd ?items)"
    by (simp add: sorted_issues_keyable ranked_def)
  moreover have "mset ?items = mset (enumerate 0 issues)"
    by simp
  moreover have "\<forall>item \<in> set ?items.
      sort_key_issue (snd item) (fst item) = Inr (spec_rank_key item)"
  proof
    fix item
    assume "item \<in> set ?items"
    then have "is_record (snd item)"
      using assms records_enumerate [of issues item 0] by simp
    then show "sort_key_issue (snd item) (fst item) = Inr (spec_rank_key item)"
      using sort_key_issue_spec [of "snd item" "fst item"] by simp
  qed
  moreover have s: "sorted_wrt (\<lambda>a b. spec_rank_key a < spec_rank_key b) ?items"
    using assms by (rule sorted_spec_rank)
  moreover from s have "sorted_wrt ranks_before ?items"
    by (simp add: ranks_before_iff [abs_def])
  moreover have "\<forall>t. filter (\<lambda>item. spec_normalised (snd item) = t) ?items =
      filter (\<lambda>item. spec_normalised (snd item) = t) (enumerate 0 issues)"
    using assms by (simp add: stable_spec_normalised)
  moreover have "\<forall>s. filter (\<lambda>item. spec_scores (snd item) = s) ?items =
      filter (\<lambda>item. spec_scores (snd item) = s) (enumerate 0 issues)"
    using assms by (simp add: stable_spec_scores)
  ultimately show ?thesis
    by blast
qed

theorem ranking_order_witness:
  "list_all is_record scenario_issues
   \<and> sorted_issues scenario_issues = Inr scenario_ranked
   \<and> map spec_scores scenario_ranked = [(3, 3, 3), (3, 1, 3), (1, 1, 3)]
   \<and> (\<exists>items.
         sorted_issues scenario_issues = Inr (map snd items)
         \<and> mset items = mset (enumerate 0 scenario_issues)
         \<and> (\<forall>item \<in> set items.
               sort_key_issue (snd item) (fst item) = Inr (spec_rank_key item))
         \<and> sorted_wrt (\<lambda>a b. spec_rank_key a < spec_rank_key b) items
         \<and> sorted_wrt ranks_before items
         \<and> (\<forall>t. filter (\<lambda>item. spec_normalised (snd item) = t) items =
                  filter (\<lambda>item. spec_normalised (snd item) = t)
                    (enumerate 0 scenario_issues))
         \<and> (\<forall>s. filter (\<lambda>item. spec_scores (snd item) = s) items =
                  filter (\<lambda>item. spec_scores (snd item) = s)
                    (enumerate 0 scenario_issues)))"
  using ranking_order [OF scenario_records] scenario_records scenario_sorted scenario_scores
  unfolding list_all_iff by blast

text \<open>
  C5. In the returned list, from left to right, the priority score never rises; among
  records of equal priority score the impact score never rises; among records of equal
  priority and impact score the estimate score never falls. The scores are those of
  the specification (its tables on its normalised values). This holds for every limit.
\<close>

theorem order_monotone:
  assumes "map_of kvs (YStr ''issues'') = Some (YList issues)"
    and "\<forall>r \<in> set issues. is_record r"
  shows "\<exists>records.
           select_result (YMap kvs) limit = Inr (issues_doc records)
           \<and> (\<forall>i j. i < j \<and> j < length records \<longrightarrow>
                 spec_priority (records ! j) \<le> spec_priority (records ! i)
                 \<and> (spec_priority (records ! j) = spec_priority (records ! i) \<longrightarrow>
                      spec_impact (records ! j) \<le> spec_impact (records ! i))
                 \<and> (spec_priority (records ! j) = spec_priority (records ! i)
                      \<and> spec_impact (records ! j) = spec_impact (records ! i) \<longrightarrow>
                      spec_estimate (records ! i) \<le> spec_estimate (records ! j)))"
proof -
  let ?records = "slice_to (ranked issues) limit"
  from assms(2) have "\<forall>r \<in> set issues. keyable r"
    by (simp add: keyable_record)
  with assms(1) have "select_result (YMap kvs) limit = Inr (issues_doc ?records)"
    by (rule select_result_keyable)
  moreover have "spec_priority (?records ! j) \<le> spec_priority (?records ! i)
      \<and> (spec_priority (?records ! j) = spec_priority (?records ! i) \<longrightarrow>
           spec_impact (?records ! j) \<le> spec_impact (?records ! i))
      \<and> (spec_priority (?records ! j) = spec_priority (?records ! i)
           \<and> spec_impact (?records ! j) = spec_impact (?records ! i) \<longrightarrow>
           spec_estimate (?records ! i) \<le> spec_estimate (?records ! j))"
    if "i < j \<and> j < length ?records" for i j
  proof -
    have sub: "set ?records \<subseteq> set issues"
      using set_slice_to [of "ranked issues" limit] by (simp add: set_ranked)
    from that have "?records ! i \<in> set ?records" and "?records ! j \<in> set ?records"
      by simp_all
    with sub assms(2) have ri: "is_record (?records ! i)" and rj: "is_record (?records ! j)"
      by blast+
    from that sorted_score_slice [of issues limit]
    have "score_key (?records ! i) \<le> score_key (?records ! j)"
      by (simp add: sorted_iff_nth_mono_less)
    then have "(- spec_priority (?records ! i), - spec_impact (?records ! i),
        spec_estimate (?records ! i))
      \<le> (- spec_priority (?records ! j), - spec_impact (?records ! j),
        spec_estimate (?records ! j))"
      by (simp only: score_key_record [OF ri] score_key_record [OF rj])
    then show ?thesis
      by (rule spec_scores_le)
  qed
  ultimately show ?thesis
    by blast
qed

theorem order_monotone_witness:
  "list_all is_record scenario_issues
   \<and> select_result (issues_doc scenario_issues) 2 = Inr scenario_top2
   \<and> map spec_scores scenario_ranked = [(3, 3, 3), (3, 1, 3), (1, 1, 3)]
   \<and> (\<exists>records.
         select_result (YMap [(YStr ''issues'', YList scenario_issues)]) 2 =
           Inr (issues_doc records)
         \<and> (\<forall>i j. i < j \<and> j < length records \<longrightarrow>
               spec_priority (records ! j) \<le> spec_priority (records ! i)
               \<and> (spec_priority (records ! j) = spec_priority (records ! i) \<longrightarrow>
                    spec_impact (records ! j) \<le> spec_impact (records ! i))
               \<and> (spec_priority (records ! j) = spec_priority (records ! i)
                    \<and> spec_impact (records ! j) = spec_impact (records ! i) \<longrightarrow>
                    spec_estimate (records ! i) \<le> spec_estimate (records ! j))))"
  using order_monotone [OF scenario_lookup scenario_records, of 2] scenario_records
    scenario_top2_result scenario_scores
  unfolding list_all_iff by blast

text \<open>
  C6. With a limit that is not negative, ranking and truncating the output of a
  successful run again, with the same limit, returns that output unchanged.
\<close>

theorem rank_idempotent:
  assumes "0 \<le> limit" and "select_result data limit = Inr doc"
  shows "select_result doc limit = Inr doc"
proof -
  from assms(2) obtain kvs issues where k: "\<forall>r \<in> set issues. keyable r"
    and doc: "doc = issues_doc (slice_to (ranked issues) limit)"
    using select_result_Inr by blast
  let ?records = "slice_to (ranked issues) limit"
  have "set ?records \<subseteq> set issues"
    using set_slice_to [of "ranked issues" limit] by (simp add: set_ranked)
  with k have "\<forall>r \<in> set ?records. keyable r"
    by blast
  moreover have "map_of [(YStr ''issues'', YList ?records)] (YStr ''issues'') =
      Some (YList ?records)"
    by simp
  ultimately have "select_result (YMap [(YStr ''issues'', YList ?records)]) limit =
      Inr (issues_doc (slice_to (ranked ?records) limit))"
    by (rule select_result_keyable [rotated])
  moreover have "ranked ?records = ?records"
    by (rule ranked_id) (rule sorted_score_slice)
  moreover from assms(1) have "slice_to ?records limit = ?records"
    by (simp add: slice_to_def)
  ultimately show ?thesis
    by (simp add: doc issues_doc_def)
qed

theorem rank_idempotent_witness:
  "(0::int) \<le> 2
   \<and> select_result (issues_doc scenario_issues) 2 = Inr scenario_top2
   \<and> select_result scenario_top2 2 = Inr scenario_top2"
proof -
  have z: "(0::int) \<le> 2"
    by simp
  from rank_idempotent [OF z scenario_top2_result] z scenario_top2_result show ?thesis
    by blast
qed

text \<open>
  C7. Every record of the output document is a record of the input document, unchanged
  in all its fields, and no record occurs more often in the output than in the input:
  ranking computes keys and moves records, it builds no new record.
\<close>

theorem records_verbatim:
  assumes "select_result data limit = Inr doc"
  shows "\<exists>kvs issues records.
           data = YMap kvs \<and> map_of kvs (YStr ''issues'') = Some (YList issues)
           \<and> doc = YMap [(YStr ''issues'', YList records)]
           \<and> mset records \<subseteq># mset issues"
proof -
  from assms obtain kvs issues where "data = YMap kvs"
    and "map_of kvs (YStr ''issues'') = Some (YList issues)"
    and "doc = issues_doc (slice_to (ranked issues) limit)"
    using select_result_Inr by blast
  moreover have "mset (slice_to (ranked issues) limit) \<subseteq># mset issues"
    using mset_slice_to [of "ranked issues" limit] by (simp add: mset_ranked)
  ultimately show ?thesis
    by (auto simp: issues_doc_def)
qed

theorem records_verbatim_witness:
  "select_result (issues_doc scenario_issues) 2 = Inr scenario_top2
   \<and> (\<exists>kvs issues records.
         issues_doc scenario_issues = YMap kvs
         \<and> map_of kvs (YStr ''issues'') = Some (YList issues)
         \<and> scenario_top2 = YMap [(YStr ''issues'', YList records)]
         \<and> mset records \<subseteq># mset issues)"
  using records_verbatim [OF scenario_top2_result] scenario_top2_result
  by blast



text \<open>
  C3. For a record, priority, impact and estimate are normalised independently by the
  rules of the specification: a direct field that is a string is upper-cased and used,
  whatever its value; otherwise, for priority and impact only, the first label that is
  a string whose lower-cased form starts with \<open>priority:\<close> (\<open>impact:\<close>) gives the
  upper-cased text after its first colon; otherwise the default \<open>P3\<close>, \<open>LOW\<close>, \<open>M\<close>.
  The key then scores the normalised values by the three tables, a value outside a
  table as 1, 1 and 3.
\<close>

theorem normalisation_rules:
  assumes "is_record r"
  shows "normalise_priority r = Inr (spec_field ''priority'' (Some ''priority:'') ''P3'' r)
       \<and> normalise_impact r = Inr (spec_field ''impact'' (Some ''impact:'') ''LOW'' r)
       \<and> normalise_estimate r = Inr (spec_field ''estimate'' None ''M'' r)
       \<and> sort_key_issue r i =
           Inr (- spec_priority_score (spec_field ''priority'' (Some ''priority:'') ''P3'' r),
                - spec_impact_score (spec_field ''impact'' (Some ''impact:'') ''LOW'' r),
                spec_estimate_score (spec_field ''estimate'' None ''M'' r),
                i)"
proof -
  note n = normalise_priority_record [OF assms] normalise_impact_record [OF assms]
    normalise_estimate_record [OF assms]
  have "sort_key_issue r i =
           Inr (- spec_priority_score (spec_field ''priority'' (Some ''priority:'') ''P3'' r),
                - spec_impact_score (spec_field ''impact'' (Some ''impact:'') ''LOW'' r),
                spec_estimate_score (spec_field ''estimate'' None ''M'' r),
                i)"
    by (simp add: sort_key_issue_def n table_defaults table_get_priority table_get_impact
        table_get_estimate)
  with n show ?thesis
    by simp
qed

theorem normalisation_rules_witness:
  "is_record labelled_issue
   \<and> normalise_priority labelled_issue = Inr ''P1''
   \<and> normalise_impact labelled_issue = Inr ''HIGH''
   \<and> normalise_estimate labelled_issue = Inr ''XS''
   \<and> sort_key_issue labelled_issue 4 = Inr (- 3, - 3, 1, 4)"
proof -
  have "spec_field ''priority'' (Some ''priority:'') ''P3'' labelled_issue = ''P1''"
    by code_simp
  moreover have "spec_field ''impact'' (Some ''impact:'') ''LOW'' labelled_issue = ''HIGH''"
    by code_simp
  moreover have "spec_field ''estimate'' None ''M'' labelled_issue = ''XS''"
    by code_simp
  moreover have "spec_priority_score ''P1'' = 3" "spec_impact_score ''HIGH'' = 3"
    "spec_estimate_score ''XS'' = 1"
    by (simp_all add: spec_priority_score_def spec_impact_score_def spec_estimate_score_def)
  ultimately show ?thesis
    using normalisation_rules [OF labelled_record, of 4] labelled_record by simp
qed

text \<open>
  C10. For a record whose \<open>labels\<close> field is absent, null or a list with arbitrary
  entries: null labels are iterated as the empty list; the scan for \<open>priority:\<close> and
  for \<open>impact:\<close> returns what it returns on the string entries alone; neither
  normaliser raises; and when the direct field is not a string, the first label that
  is a string with the prefix decides the value, whatever stands before it.
\<close>

theorem labels_lenient:
  assumes "is_record r"
  shows "(dict_get r ''labels'' = Inr (Some YNull) \<longrightarrow> labels_iter r = Inr [])
       \<and> labels_iter r = Inr (spec_labels r)
       \<and> scan_labels ''priority:'' (spec_labels r) =
           Inr (spec_from_labels ''priority:'' (filter is_string (spec_labels r)))
       \<and> scan_labels ''impact:'' (spec_labels r) =
           Inr (spec_from_labels ''impact:'' (filter is_string (spec_labels r)))
       \<and> (\<exists>p. normalise_priority r = Inr p)
       \<and> (\<exists>i. normalise_impact r = Inr i)
       \<and> (\<forall>before s after.
             \<not> string_field r ''priority''
             \<and> spec_labels r = before @ YStr s # after
             \<and> \<not> list_ex (label_match ''priority:'') before
             \<and> label_match ''priority:'' (YStr s)
             \<longrightarrow> normalise_priority r = Inr (upper (after_first_colon s)))
       \<and> (\<forall>before s after.
             \<not> string_field r ''impact''
             \<and> spec_labels r = before @ YStr s # after
             \<and> \<not> list_ex (label_match ''impact:'') before
             \<and> label_match ''impact:'' (YStr s)
             \<longrightarrow> normalise_impact r = Inr (upper (after_first_colon s)))"
proof -
  have a: "dict_get r ''labels'' = Inr (Some YNull) \<longrightarrow> labels_iter r = Inr []"
    by (simp add: labels_null)
  have b: "labels_iter r = Inr (spec_labels r)"
    using assms by (rule labels_iter_record)
  have c: "scan_labels ''priority:'' (spec_labels r) =
      Inr (spec_from_labels ''priority:'' (filter is_string (spec_labels r)))"
    by (rule scan_labels_record) (rule colon_in_prefixes)
  have d: "scan_labels ''impact:'' (spec_labels r) =
      Inr (spec_from_labels ''impact:'' (filter is_string (spec_labels r)))"
    by (rule scan_labels_record) (rule colon_in_prefixes)
  have e: "\<exists>p. normalise_priority r = Inr p"
    using normalise_priority_record [OF assms] by blast
  have f: "\<exists>i. normalise_impact r = Inr i"
    using normalise_impact_record [OF assms] by blast
  have g: "normalise_priority r = Inr (upper (after_first_colon s))"
    if "\<not> string_field r ''priority''" "spec_labels r = before @ YStr s # after"
      "\<not> list_ex (label_match ''priority:'') before" "label_match ''priority:'' (YStr s)"
    for before s after
    using normalise_priority_record [OF assms] first_label_wins [OF assms that]
    by simp
  have h: "normalise_impact r = Inr (upper (after_first_colon s))"
    if "\<not> string_field r ''impact''" "spec_labels r = before @ YStr s # after"
      "\<not> list_ex (label_match ''impact:'') before" "label_match ''impact:'' (YStr s)"
    for before s after
    using normalise_impact_record [OF assms] first_label_wins [OF assms that]
    by simp
  from a b c d e f g h show ?thesis
    by blast
qed

theorem labels_lenient_witness:
  "is_record null_labels_issue
   \<and> labels_iter null_labels_issue = Inr []
   \<and> is_record labelled_issue
   \<and> normalise_priority labelled_issue = Inr ''P1''"
proof -
  have "labels_iter null_labels_issue = Inr []"
    using labels_lenient [OF null_labels_record] null_labels_lookup by blast
  moreover have "normalise_priority labelled_issue =
      Inr (upper (after_first_colon ''Priority:p1''))"
    using labels_lenient [OF labelled_record] labelled_no_priority labelled_labels
      labelled_before labelled_match
    by blast
  moreover have "upper (after_first_colon ''Priority:p1'') = ''P1''"
    by (simp add: after_first_colon_def upper_def upper_char_def)
  ultimately show ?thesis
    using null_labels_record labelled_record by simp
qed

text \<open>
  C4. When the parsed input is not a mapping, or has no key \<open>issues\<close>, or the value
  under that key is not a sequence, \<open>select_top_issues\<close> raises \<open>SystemExit\<close> with a
  message and leaves the world as it was; the script then ends with status 1, the
  message on the error stream, nothing on the output stream and no file written (the
  directory of the target has been created before).
\<close>

theorem malformed_fatal:
  assumes "files w source = Some content"
    and "load content = Inr data"
    and "malformed data"
  shows "\<exists>msg.
           select_top_issues load dump source target limit w = (Inl (SystemExit msg), w)
           \<and> script load dump [prog, source, target] w =
               (1, w\<lparr>mkdirs := mkdirs w @ [target], err := err w @ [msg]\<rparr>)
           \<and> files (snd (script load dump [prog, source, target] w)) = files w
           \<and> out (snd (script load dump [prog, source, target] w)) = out w"
proof -
  from assms(3) obtain msg where m: "\<And>limit. select_result data limit = Inl (SystemExit msg)"
    by (cases data) (auto simp: select_result_def split: option.splits yaml.splits)
  have s: "select_top_issues load dump source target l v = (Inl (SystemExit msg), v)"
    if "files v source = Some content" for l v
    using that assms(2) by (simp add: select_top_issues_def m)
  have "files (w\<lparr>mkdirs := mkdirs w @ [target]\<rparr>) source = Some content"
    using assms(1) by simp
  then have "select_top_issues load dump source target 10 (w\<lparr>mkdirs := mkdirs w @ [target]\<rparr>) =
      (Inl (SystemExit msg), w\<lparr>mkdirs := mkdirs w @ [target]\<rparr>)"
    by (rule s)
  then have "main load dump [prog, source, target] w =
      (Inl (SystemExit msg), w\<lparr>mkdirs := mkdirs w @ [target]\<rparr>)"
    using assms(1) by (simp add: main_three)
  then have "script load dump [prog, source, target] w =
      (1, w\<lparr>mkdirs := mkdirs w @ [target], err := err w @ [msg]\<rparr>)"
    by (simp add: script_def)
  with s [OF assms(1), of limit] show ?thesis
    by simp
qed

theorem malformed_fatal_witness:
  "files scenario_world ''backlog/issues.yaml'' = Some ''text''
   \<and> empty_load ''text'' = Inr (YMap [])
   \<and> malformed (YMap [])
   \<and> (\<exists>msg.
         select_top_issues empty_load scenario_dump
             ''backlog/issues.yaml'' ''backlog/top.yaml'' 10 scenario_world =
           (Inl (SystemExit msg), scenario_world)
         \<and> script empty_load scenario_dump
             [''tools/select_top10.py'', ''backlog/issues.yaml'', ''backlog/top.yaml'']
             scenario_world =
             (1, scenario_world\<lparr>mkdirs := mkdirs scenario_world @ [''backlog/top.yaml''],
                  err := err scenario_world @ [msg]\<rparr>)
         \<and> files (snd (script empty_load scenario_dump
             [''tools/select_top10.py'', ''backlog/issues.yaml'', ''backlog/top.yaml'']
             scenario_world)) = files scenario_world
         \<and> out (snd (script empty_load scenario_dump
             [''tools/select_top10.py'', ''backlog/issues.yaml'', ''backlog/top.yaml'']
             scenario_world)) = out scenario_world)"
  using malformed_fatal [where load = empty_load and dump = scenario_dump
      and target = "''backlog/top.yaml''" and limit = 10
      and prog = "''tools/select_top10.py''",
      OF scenario_file empty_parsed empty_malformed]
    scenario_file empty_parsed empty_malformed
  by blast

text \<open>
  C8, as the code has it. The command line takes exactly the program name, an input
  path and an output path: with any other number of arguments, so also with a limit
  added, the script prints the usage line on the error stream and ends with status 1.
  The limit is always 10. A missing input path ends with status 1 and a diagnostic on
  the error stream. On a document whose issues are records the script writes the
  output document with at most ten records, reports the written path on the output
  stream and ends with status 0.
\<close>

theorem cli_surface:
  "(length argv \<noteq> 3 \<longrightarrow>
      script load dump argv w = (1, w\<lparr>err := err w @ [usage]\<rparr>))
   \<and> (files w source = None \<longrightarrow>
      script load dump [prog, source, target] w =
        (1, w\<lparr>err := err w @ [''Input file not found: '' @ source]\<rparr>))
   \<and> (files w source = Some content \<and> load content = Inr (YMap kvs)
        \<and> map_of kvs (YStr ''issues'') = Some (YList issues)
        \<and> (\<forall>r \<in> set issues. is_record r) \<longrightarrow>
      (\<exists>records.
         script load dump [prog, source, target] w =
           (0, w\<lparr>files := (files w)(target \<mapsto> dump (issues_doc records)),
                mkdirs := mkdirs w @ [target],
                out := out w @ [''Top issues written to '' @ target]\<rparr>)
         \<and> length records = min 10 (length issues)))"
proof (intro conjI impI)
  assume "length argv \<noteq> 3"
  then show "script load dump argv w = (1, w\<lparr>err := err w @ [usage]\<rparr>)"
    by (rule script_usage)
next
  assume "files w source = None"
  then show "script load dump [prog, source, target] w =
      (1, w\<lparr>err := err w @ [''Input file not found: '' @ source]\<rparr>)"
    by (rule script_missing)
next
  assume a: "files w source = Some content \<and> load content = Inr (YMap kvs)
      \<and> map_of kvs (YStr ''issues'') = Some (YList issues)
      \<and> (\<forall>r \<in> set issues. is_record r)"
  then have "script load dump [prog, source, target] w =
     (0, w\<lparr>files := (files w)(target \<mapsto> dump (issues_doc (slice_to (ranked issues) 10))),
          mkdirs := mkdirs w @ [target],
          out := out w @ [''Top issues written to '' @ target]\<rparr>)"
    using script_success [of w source content load kvs issues dump prog target] by blast
  moreover have "length (slice_to (ranked issues) 10) = min 10 (length issues)"
    by (simp add: length_slice_to length_ranked)
  ultimately show "\<exists>records.
         script load dump [prog, source, target] w =
           (0, w\<lparr>files := (files w)(target \<mapsto> dump (issues_doc records)),
                mkdirs := mkdirs w @ [target],
                out := out w @ [''Top issues written to '' @ target]\<rparr>)
         \<and> length records = min 10 (length issues)"
    by blast
qed

theorem cli_surface_witness:
  "script scenario_load scenario_dump [''tools/select_top10.py''] scenario_world =
     (1, scenario_world\<lparr>err := err scenario_world @ [usage]\<rparr>)
   \<and> script scenario_load scenario_dump
       [''tools/select_top10.py'', ''backlog/none.yaml'', ''backlog/top.yaml''] scenario_world =
     (1, scenario_world\<lparr>err := err scenario_world @
           [''Input file not found: '' @ ''backlog/none.yaml'']\<rparr>)
   \<and> (\<exists>records.
         script scenario_load scenario_dump
           [''tools/select_top10.py'', ''backlog/issues.yaml'', ''backlog/top.yaml'']
           scenario_world =
           (0, scenario_world\<lparr>files := (files scenario_world)(''backlog/top.yaml'' \<mapsto>
                  scenario_dump (issues_doc records)),
                mkdirs := mkdirs scenario_world @ [''backlog/top.yaml''],
                out := out scenario_world @ [''Top issues written to '' @ ''backlog/top.yaml'']\<rparr>)
         \<and> length records = min 10 (length scenario_issues))"
proof -
  have n: "length [''tools/select_top10.py''] \<noteq> 3"
    by simp
  from cli_surface [where argv = "[''tools/select_top10.py'']" and load = scenario_load
      and dump = scenario_dump and w = scenario_world and source = "''backlog/none.yaml''"
      and prog = "''tools/select_top10.py''" and target = "''backlog/top.yaml''"]
    n scenario_missing
  have "script scenario_load scenario_dump [''tools/select_top10.py''] scenario_world =
       (1, scenario_world\<lparr>err := err scenario_world @ [usage]\<rparr>)
     \<and> script scenario_load scenario_dump
         [''tools/select_top10.py'', ''backlog/none.yaml'', ''backlog/top.yaml''] scenario_world =
       (1, scenario_world\<lparr>err := err scenario_world @
           [''Input file not found: '' @ ''backlog/none.yaml'']\<rparr>)"
    by blast
  moreover from cli_surface [where load = scenario_load and dump = scenario_dump
      and w = scenario_world and source = "''backlog/issues.yaml''" and content = "''text''"
      and kvs = "[(YStr ''issues'', YList scenario_issues)]" and issues = scenario_issues
      and prog = "''tools/select_top10.py''" and target = "''backlog/top.yaml''"]
    scenario_file scenario_parsed scenario_lookup scenario_records
  have "\<exists>records.
         script scenario_load scenario_dump
           [''tools/select_top10.py'', ''backlog/issues.yaml'', ''backlog/top.yaml'']
           scenario_world =
           (0, scenario_world\<lparr>files := (files scenario_world)(''backlog/top.yaml'' \<mapsto>
                  scenario_dump (issues_doc records)),
                mkdirs := mkdirs scenario_world @ [''backlog/top.yaml''],
                out := out scenario_world @ [''Top issues written to '' @ ''backlog/top.yaml'']\<rparr>)
         \<and> length records = min 10 (length scenario_issues)"
    by blast
  ultimately show ?thesis
    by blast
qed

text \<open>
  C8 as stated fails: a limit given on the command line is not accepted. The run that
  succeeds with two paths ends with the usage line and status 1, and writes nothing,
  once a limit is added.
\<close>

theorem cli_limit_counterexample:
  "script scenario_load scenario_dump
     [''tools/select_top10.py'', ''backlog/issues.yaml'', ''backlog/top.yaml'', ''5'']
     scenario_world =
     (1, scenario_world\<lparr>err := err scenario_world @ [usage]\<rparr>)
   \<and> fst (script scenario_load scenario_dump
     [''tools/select_top10.py'', ''backlog/issues.yaml'', ''backlog/top.yaml'']
     scenario_world) = 0"
proof -
  have "length [''tools/select_top10.py'', ''backlog/issues.yaml'', ''backlog/top.yaml'', ''5'']
      \<noteq> 3"
    by simp
  then have "script scenario_load scenario_dump
     [''tools/select_top10.py'', ''backlog/issues.yaml'', ''backlog/top.yaml'', ''5'']
     scenario_world =
     (1, scenario_world\<lparr>err := err scenario_world @ [usage]\<rparr>)"
    by (rule script_usage)
  moreover have "fst (script scenario_load scenario_dump
     [''tools/select_top10.py'', ''backlog/issues.yaml'', ''backlog/top.yaml'']
     scenario_world) = 0"
    using script_success [where load = scenario_load and dump = scenario_dump
        and prog = "''tools/select_top10.py''" and target = "''backlog/top.yaml''",
        OF scenario_file scenario_parsed scenario_lookup scenario_records]
    by simp
  ultimately show ?thesis
    by simp
qed

end
